theory Spec2Isabelle
  imports Main
begin

section \<open>Data model of the relay server\<close>

text \<open>
  The server keeps one process-wide list \<open>userSocketMap\<close> of \<open>User\<close> records and hands
  every outbound event to socket.io, which keeps its own table of rooms. Socket ids, room
  ids and user names are JavaScript strings; payloads the server only forwards
  (SDP descriptions, ICE candidates, file contents, drawings) are opaque and are kept
  as strings too. \<open>cursorPosition\<close> is a JavaScript number that the server never
  computes with; it is carried as an integer.
\<close>

type_synonym SocketId = string
type_synonym json = string

datatype USER_CONNECTION_STATUS = OFFLINE | ONLINE

record User =
  username :: string
  roomId :: string
  status :: USER_CONNECTION_STATUS
  cursorPosition :: int
  typing :: bool
  socketId :: SocketId
  currentFile :: "string option"

text \<open>The events the server emits, each with the payload object it is sent with.\<close>

datatype SocketEvent =
    USERNAME_EXISTS
  | USER_JOINED User
  | JOIN_ACCEPTED User "User list"
  | USER_DISCONNECTED User
  | SIGNAL_ICE_CANDIDATE json SocketId
  | SIGNAL_OFFER json SocketId
  | SIGNAL_ANSWER json SocketId
  | SYNC_FILE_STRUCTURE json json json
  | DIRECTORY_CREATED json json
  | DIRECTORY_UPDATED json json
  | DIRECTORY_RENAMED json json
  | DIRECTORY_DELETED json
  | FILE_CREATED json json
  | FILE_UPDATED json json
  | FILE_RENAMED json json
  | FILE_DELETED json
  | USER_OFFLINE SocketId
  | USER_ONLINE SocketId
  | RECEIVE_MESSAGE json
  | TYPING_START User
  | TYPING_PAUSE User
  | REQUEST_DRAWING SocketId
  | SYNC_DRAWING json

section \<open>The transport: socket.io rooms\<close>

text \<open>
  socket.io is not part of the repository; the server uses four of its operations, modelled
  here as the library documents them. A room is a named set of sockets. Every connected
  socket is a member of the room named by its own id. \<open>io.to(r).emit\<close> delivers to every
  member of room \<open>r\<close>. \<open>socket.broadcast\<close> is the same operator with the room named
  by the socket's own id as its except-room, so \<open>socket.broadcast.to(r).emit\<close> delivers
  to every member of \<open>r\<close> that is not a member of the room named by the sender's id: the
  sender is skipped, and so is every other socket that has joined that room.
  \<open>socket.join(r)\<close> and \<open>socket.leave(r)\<close> add the socket to \<open>r\<close> and remove it.
  Recipients are fixed when \<open>emit\<close> is called, so an emission records them together with
  the address it was sent to.
\<close>

type_synonym adapter = "string \<Rightarrow> SocketId set"

datatype target = To string | BroadcastTo SocketId string

fun members :: "adapter \<Rightarrow> target \<Rightarrow> SocketId set" where
  "members rs (To r) = rs r"
| "members rs (BroadcastTo sid r) = rs r - rs sid"

record emission =
  dest :: target
  recipients :: "SocketId set"
  event :: SocketEvent

definition emit :: "adapter \<Rightarrow> target \<Rightarrow> SocketEvent \<Rightarrow> emission" where
  "emit rs t e = \<lparr>dest = t, recipients = members rs t, event = e\<rparr>"

definition socket_join :: "adapter \<Rightarrow> SocketId \<Rightarrow> string \<Rightarrow> adapter" where
  "socket_join rs sid r = rs(r := insert sid (rs r))"

definition socket_leave :: "adapter \<Rightarrow> SocketId \<Rightarrow> string \<Rightarrow> adapter" where
  "socket_leave rs sid r = rs(r := rs r - {sid})"

record server =
  userSocketMap :: "User list"
  rooms :: adapter

definition init :: server where
  "init = \<lparr>userSocketMap = [], rooms = (\<lambda>r. {})\<rparr>"

section \<open>Registry lookups\<close>

definition getUsersInRoom :: "User list \<Rightarrow> string \<Rightarrow> User list" where
  "getUsersInRoom usm r = filter (\<lambda>user. roomId user = r) usm"

definition getRoomId :: "User list \<Rightarrow> SocketId \<Rightarrow> string option" where
  "getRoomId usm sid =
     (case find (\<lambda>user. socketId user = sid) usm of
        None \<Rightarrow> None
      | Some user \<Rightarrow> Some (roomId user))"

definition getUserBySocketId :: "User list \<Rightarrow> SocketId \<Rightarrow> User option" where
  "getUserBySocketId usm sid = find (\<lambda>user. socketId user = sid) usm"

section \<open>Event handlers\<close>

text \<open>
  Each handler takes the server state and the id of the socket the event arrived on
  (\<open>socket.id\<close>), then the fields its parameter pattern destructures from the payload.
  It returns the new state and the emissions in the order they are made.
\<close>

definition newUser :: "SocketId \<Rightarrow> string \<Rightarrow> string \<Rightarrow> User" where
  "newUser sid r n =
     \<lparr>username = n, roomId = r, status = ONLINE, cursorPosition = 0, typing = False,
      socketId = sid, currentFile = None\<rparr>"

definition isUsernameExist :: "User list \<Rightarrow> string \<Rightarrow> string \<Rightarrow> bool" where
  "isUsernameExist usm r n = list_ex (\<lambda>user. username user = n) (getUsersInRoom usm r)"

definition on_JOIN_REQUEST ::
  "server \<Rightarrow> SocketId \<Rightarrow> string \<Rightarrow> string \<Rightarrow> server \<times> emission list" where
  "on_JOIN_REQUEST s sid r n =
     (if isUsernameExist (userSocketMap s) r n
      then (s, [emit (rooms s) (To sid) USERNAME_EXISTS])
      else
        let u = newUser sid r n;
            s1 = s\<lparr>userSocketMap := userSocketMap s @ [u]\<rparr>;
            s2 = s1\<lparr>rooms := socket_join (rooms s1) sid r\<rparr>;
            e1 = emit (rooms s2) (BroadcastTo sid r) (USER_JOINED u);
            users = getUsersInRoom (userSocketMap s2) r;
            e2 = emit (rooms s2) (To sid) (JOIN_ACCEPTED u users)
        in (s2, [e1, e2]))"

definition on_disconnecting :: "server \<Rightarrow> SocketId \<Rightarrow> server \<times> emission list" where
  "on_disconnecting s sid =
     (case getUserBySocketId (userSocketMap s) sid of
        None \<Rightarrow> (s, [])
      | Some user \<Rightarrow>
          let r = roomId user;
              e = emit (rooms s) (BroadcastTo sid r) (USER_DISCONNECTED user);
              s1 = s\<lparr>userSocketMap := filter (\<lambda>u. socketId u \<noteq> sid) (userSocketMap s)\<rparr>;
              s2 = s1\<lparr>rooms := socket_leave (rooms s1) sid r\<rparr>
          in (s2, [e]))"

text \<open>
  The three signalling handlers destructure two fields of the payload; whatever else the
  client put into the object (the last argument, a list of further properties such as a
  \<open>socketId\<close> of its own choosing) is dropped by the pattern.
\<close>

definition on_SIGNAL_ICE_CANDIDATE ::
  "server \<Rightarrow> SocketId \<Rightarrow> json \<Rightarrow> string \<Rightarrow> (string \<times> json) list \<Rightarrow> server \<times> emission list" where
  "on_SIGNAL_ICE_CANDIDATE s sid candidate r rest =
     (s, [emit (rooms s) (BroadcastTo sid r) (SIGNAL_ICE_CANDIDATE candidate sid)])"

definition on_SIGNAL_OFFER ::
  "server \<Rightarrow> SocketId \<Rightarrow> json \<Rightarrow> string \<Rightarrow> (string \<times> json) list \<Rightarrow> server \<times> emission list" where
  "on_SIGNAL_OFFER s sid offer r rest =
     (s, [emit (rooms s) (BroadcastTo sid r) (SIGNAL_OFFER offer sid)])"

definition on_SIGNAL_ANSWER ::
  "server \<Rightarrow> SocketId \<Rightarrow> json \<Rightarrow> string \<Rightarrow> (string \<times> json) list \<Rightarrow> server \<times> emission list" where
  "on_SIGNAL_ANSWER s sid answer r rest =
     (s, [emit (rooms s) (BroadcastTo sid r) (SIGNAL_ANSWER answer sid)])"

definition on_SYNC_FILE_STRUCTURE ::
  "server \<Rightarrow> SocketId \<Rightarrow> json \<Rightarrow> json \<Rightarrow> json \<Rightarrow> server \<times> emission list" where
  "on_SYNC_FILE_STRUCTURE s sid fileStructure openFiles activeFile =
     (s, [emit (rooms s) (To sid) (SYNC_FILE_STRUCTURE fileStructure openFiles activeFile)])"

text \<open>
  Ten handlers share one shape: look up the sender's room with \<open>getRoomId(socket.id)\<close>,
  return if \<open>!roomId\<close>, else broadcast one event to that room. In JavaScript \<open>!roomId\<close>
  holds for \<open>null\<close> and for the empty string.
\<close>

definition broadcast_to_own_room :: "server \<Rightarrow> SocketId \<Rightarrow> SocketEvent \<Rightarrow> server \<times> emission list" where
  "broadcast_to_own_room s sid e =
     (case getRoomId (userSocketMap s) sid of
        None \<Rightarrow> (s, [])
      | Some r \<Rightarrow>
          if r = [] then (s, [])
          else (s, [emit (rooms s) (BroadcastTo sid r) e]))"

definition on_DIRECTORY_CREATED :: "server \<Rightarrow> SocketId \<Rightarrow> json \<Rightarrow> json \<Rightarrow> server \<times> emission list" where
  "on_DIRECTORY_CREATED s sid parentDirId newDirectory =
     broadcast_to_own_room s sid (DIRECTORY_CREATED parentDirId newDirectory)"

definition on_DIRECTORY_UPDATED :: "server \<Rightarrow> SocketId \<Rightarrow> json \<Rightarrow> json \<Rightarrow> server \<times> emission list" where
  "on_DIRECTORY_UPDATED s sid dirId children =
     broadcast_to_own_room s sid (DIRECTORY_UPDATED dirId children)"

definition on_DIRECTORY_RENAMED :: "server \<Rightarrow> SocketId \<Rightarrow> json \<Rightarrow> json \<Rightarrow> server \<times> emission list" where
  "on_DIRECTORY_RENAMED s sid dirId newName =
     broadcast_to_own_room s sid (DIRECTORY_RENAMED dirId newName)"

definition on_DIRECTORY_DELETED :: "server \<Rightarrow> SocketId \<Rightarrow> json \<Rightarrow> server \<times> emission list" where
  "on_DIRECTORY_DELETED s sid dirId = broadcast_to_own_room s sid (DIRECTORY_DELETED dirId)"

definition on_FILE_CREATED :: "server \<Rightarrow> SocketId \<Rightarrow> json \<Rightarrow> json \<Rightarrow> server \<times> emission list" where
  "on_FILE_CREATED s sid parentDirId newFile =
     broadcast_to_own_room s sid (FILE_CREATED parentDirId newFile)"

definition on_FILE_UPDATED :: "server \<Rightarrow> SocketId \<Rightarrow> json \<Rightarrow> json \<Rightarrow> server \<times> emission list" where
  "on_FILE_UPDATED s sid fileId newContent =
     broadcast_to_own_room s sid (FILE_UPDATED fileId newContent)"

definition on_FILE_RENAMED :: "server \<Rightarrow> SocketId \<Rightarrow> json \<Rightarrow> json \<Rightarrow> server \<times> emission list" where
  "on_FILE_RENAMED s sid fileId newName =
     broadcast_to_own_room s sid (FILE_RENAMED fileId newName)"

definition on_FILE_DELETED :: "server \<Rightarrow> SocketId \<Rightarrow> json \<Rightarrow> server \<times> emission list" where
  "on_FILE_DELETED s sid fileId = broadcast_to_own_room s sid (FILE_DELETED fileId)"

definition on_SEND_MESSAGE :: "server \<Rightarrow> SocketId \<Rightarrow> json \<Rightarrow> server \<times> emission list" where
  "on_SEND_MESSAGE s sid message = broadcast_to_own_room s sid (RECEIVE_MESSAGE message)"

definition on_REQUEST_DRAWING :: "server \<Rightarrow> SocketId \<Rightarrow> server \<times> emission list" where
  "on_REQUEST_DRAWING s sid = broadcast_to_own_room s sid (REQUEST_DRAWING sid)"

text \<open>
  The status handlers rewrite the registry first, for the socket id named in the payload
  (\<open>tid\<close>), then look up that id's room and broadcast from the sending socket.
\<close>

definition set_status :: "USER_CONNECTION_STATUS \<Rightarrow> SocketId \<Rightarrow> User list \<Rightarrow> User list" where
  "set_status st tid usm =
     map (\<lambda>user. if socketId user = tid then user\<lparr>status := st\<rparr> else user) usm"

definition on_USER_OFFLINE :: "server \<Rightarrow> SocketId \<Rightarrow> SocketId \<Rightarrow> server \<times> emission list" where
  "on_USER_OFFLINE s sid tid =
     (let s1 = s\<lparr>userSocketMap := set_status OFFLINE tid (userSocketMap s)\<rparr> in
      case getRoomId (userSocketMap s1) tid of
        None \<Rightarrow> (s1, [])
      | Some r \<Rightarrow>
          if r = [] then (s1, [])
          else (s1, [emit (rooms s1) (BroadcastTo sid r) (USER_OFFLINE tid)]))"

definition on_USER_ONLINE :: "server \<Rightarrow> SocketId \<Rightarrow> SocketId \<Rightarrow> server \<times> emission list" where
  "on_USER_ONLINE s sid tid =
     (let s1 = s\<lparr>userSocketMap := set_status ONLINE tid (userSocketMap s)\<rparr> in
      case getRoomId (userSocketMap s1) tid of
        None \<Rightarrow> (s1, [])
      | Some r \<Rightarrow>
          if r = [] then (s1, [])
          else (s1, [emit (rooms s1) (BroadcastTo sid r) (USER_ONLINE tid)]))"

definition on_TYPING_START :: "server \<Rightarrow> SocketId \<Rightarrow> int \<Rightarrow> server \<times> emission list" where
  "on_TYPING_START s sid pos =
     (let s1 = s\<lparr>userSocketMap :=
                  map (\<lambda>user. if socketId user = sid
                              then user\<lparr>typing := True, cursorPosition := pos\<rparr> else user)
                      (userSocketMap s)\<rparr> in
      case getUserBySocketId (userSocketMap s1) sid of
        None \<Rightarrow> (s1, [])
      | Some user \<Rightarrow> (s1, [emit (rooms s1) (BroadcastTo sid (roomId user)) (TYPING_START user)]))"

definition on_TYPING_PAUSE :: "server \<Rightarrow> SocketId \<Rightarrow> server \<times> emission list" where
  "on_TYPING_PAUSE s sid =
     (let s1 = s\<lparr>userSocketMap :=
                  map (\<lambda>user. if socketId user = sid then user\<lparr>typing := False\<rparr> else user)
                      (userSocketMap s)\<rparr> in
      case getUserBySocketId (userSocketMap s1) sid of
        None \<Rightarrow> (s1, [])
      | Some user \<Rightarrow> (s1, [emit (rooms s1) (BroadcastTo sid (roomId user)) (TYPING_PAUSE user)]))"

definition on_SYNC_DRAWING :: "server \<Rightarrow> SocketId \<Rightarrow> json \<Rightarrow> SocketId \<Rightarrow> server \<times> emission list" where
  "on_SYNC_DRAWING s sid drawingData tid =
     (s, [emit (rooms s) (BroadcastTo sid tid) (SYNC_DRAWING drawingData)])"

section \<open>The server as a transition system\<close>

text \<open>
  What a client can send on an open connection: one constructor per \<open>socket.on\<close>
  registration, with the fields the handler reads.
\<close>

datatype inbound =
    In_JOIN_REQUEST string string
  | In_SIGNAL_ICE_CANDIDATE json string "(string \<times> json) list"
  | In_SIGNAL_OFFER json string "(string \<times> json) list"
  | In_SIGNAL_ANSWER json string "(string \<times> json) list"
  | In_SYNC_FILE_STRUCTURE json json json
  | In_DIRECTORY_CREATED json json
  | In_DIRECTORY_UPDATED json json
  | In_DIRECTORY_RENAMED json json
  | In_DIRECTORY_DELETED json
  | In_FILE_CREATED json json
  | In_FILE_UPDATED json json
  | In_FILE_RENAMED json json
  | In_FILE_DELETED json
  | In_USER_OFFLINE SocketId
  | In_USER_ONLINE SocketId
  | In_SEND_MESSAGE json
  | In_TYPING_START int
  | In_TYPING_PAUSE
  | In_REQUEST_DRAWING
  | In_SYNC_DRAWING json SocketId

fun handle :: "server \<Rightarrow> SocketId \<Rightarrow> inbound \<Rightarrow> server \<times> emission list" where
  "handle s sid (In_JOIN_REQUEST r n) = on_JOIN_REQUEST s sid r n"
| "handle s sid (In_SIGNAL_ICE_CANDIDATE c r rest) = on_SIGNAL_ICE_CANDIDATE s sid c r rest"
| "handle s sid (In_SIGNAL_OFFER off r rest) = on_SIGNAL_OFFER s sid off r rest"
| "handle s sid (In_SIGNAL_ANSWER a r rest) = on_SIGNAL_ANSWER s sid a r rest"
| "handle s sid (In_SYNC_FILE_STRUCTURE f ofs af) = on_SYNC_FILE_STRUCTURE s sid f ofs af"
| "handle s sid (In_DIRECTORY_CREATED p d) = on_DIRECTORY_CREATED s sid p d"
| "handle s sid (In_DIRECTORY_UPDATED d c) = on_DIRECTORY_UPDATED s sid d c"
| "handle s sid (In_DIRECTORY_RENAMED d n) = on_DIRECTORY_RENAMED s sid d n"
| "handle s sid (In_DIRECTORY_DELETED d) = on_DIRECTORY_DELETED s sid d"
| "handle s sid (In_FILE_CREATED p f) = on_FILE_CREATED s sid p f"
| "handle s sid (In_FILE_UPDATED f c) = on_FILE_UPDATED s sid f c"
| "handle s sid (In_FILE_RENAMED f n) = on_FILE_RENAMED s sid f n"
| "handle s sid (In_FILE_DELETED f) = on_FILE_DELETED s sid f"
| "handle s sid (In_USER_OFFLINE tid) = on_USER_OFFLINE s sid tid"
| "handle s sid (In_USER_ONLINE tid) = on_USER_ONLINE s sid tid"
| "handle s sid (In_SEND_MESSAGE m) = on_SEND_MESSAGE s sid m"
| "handle s sid (In_TYPING_START pos) = on_TYPING_START s sid pos"
| "handle s sid In_TYPING_PAUSE = on_TYPING_PAUSE s sid"
| "handle s sid In_REQUEST_DRAWING = on_REQUEST_DRAWING s sid"
| "handle s sid (In_SYNC_DRAWING d tid) = on_SYNC_DRAWING s sid d tid"

text \<open>
  The life of a connection as socket.io drives it: on connection the socket is put into
  the room of its own id; while connected it delivers the client's events to the
  handlers; on disconnect the \<open>disconnecting\<close> handler runs while the socket is still in
  its rooms, and then the socket is taken out of every room.
\<close>

datatype action = Connect | Disconnect | Recv inbound

fun step :: "server \<Rightarrow> SocketId \<times> action \<Rightarrow> server \<times> emission list" where
  "step s (sid, Connect) = (s\<lparr>rooms := socket_join (rooms s) sid sid\<rparr>, [])"
| "step s (sid, Disconnect) =
     (let (s1, out) = on_disconnecting s sid
      in (s1\<lparr>rooms := (\<lambda>r. rooms s1 r - {sid})\<rparr>, out))"
| "step s (sid, Recv m) = handle s sid m"

fun run :: "server \<Rightarrow> (SocketId \<times> action) list \<Rightarrow> server" where
  "run s [] = s"
| "run s (a # as) = run (fst (step s a)) as"

definition connected :: "server \<Rightarrow> SocketId \<Rightarrow> bool" where
  "connected s sid = (sid \<in> rooms s sid)"

text \<open>
  A trace is well formed when a socket id connects only while it is not connected, and
  sends events and disconnects only while it is.
\<close>

fun wf_trace :: "server \<Rightarrow> (SocketId \<times> action) list \<Rightarrow> bool" where
  "wf_trace s [] = True"
| "wf_trace s ((sid, a) # as) =
     ((if a = Connect then \<not> connected s sid else connected s sid)
      \<and> wf_trace (fst (step s (sid, a))) as)"

section \<open>Derived notions used in the properties\<close>

definition is_join :: "inbound \<Rightarrow> bool" where
  "is_join m = (case m of In_JOIN_REQUEST r n \<Rightarrow> True | _ \<Rightarrow> False)"

text \<open>
  The pairs (socket id, room id) that occur in the registry, and the relation between the
  registry and the rooms of the transport that the handlers maintain: a socket is in a
  room exactly when it is connected and the room is either its own or one it has a record
  for, and every record belongs to a connected socket.
\<close>

definition keys :: "User list \<Rightarrow> (SocketId \<times> string) set" where
  "keys usm = (\<lambda>u. (socketId u, roomId u)) ` set usm"

definition rooms_match :: "server \<Rightarrow> bool" where
  "rooms_match s \<longleftrightarrow>
     (\<forall>x r. x \<in> rooms s r \<longleftrightarrow> connected s x \<and> (r = x \<or> (x, r) \<in> keys (userSocketMap s)))
     \<and> (\<forall>x r. (x, r) \<in> keys (userSocketMap s) \<longrightarrow> connected s x)"

text \<open>
  An event readmits its sender when it is a join request that the handler admits although
  the sending socket already has a record.
\<close>

fun readmits :: "server \<Rightarrow> SocketId \<times> action \<Rightarrow> bool" where
  "readmits s (sid, Recv (In_JOIN_REQUEST r n)) =
     (getUserBySocketId (userSocketMap s) sid \<noteq> None \<and> \<not> isUsernameExist (userSocketMap s) r n)"
| "readmits s (sid, a) = False"

fun no_readmission :: "server \<Rightarrow> (SocketId \<times> action) list \<Rightarrow> bool" where
  "no_readmission s [] = True"
| "no_readmission s (a # as) = (\<not> readmits s a \<and> no_readmission (fst (step s a)) as)"

text \<open>
  A list of (socket, user name) pairs, sent as join requests for room \<open>r\<close> one after the
  other, is admitted when none of the requests meets a taken name.
\<close>

fun all_admitted :: "server \<Rightarrow> string \<Rightarrow> (SocketId \<times> string) list \<Rightarrow> bool" where
  "all_admitted s r [] = True"
| "all_admitted s r ((sid, n) # js) =
     (\<not> isUsernameExist (userSocketMap s) r n
      \<and> all_admitted (fst (on_JOIN_REQUEST s sid r n)) r js)"

definition join_events :: "string \<Rightarrow> (SocketId \<times> string) list \<Rightarrow> (SocketId \<times> action) list" where
  "join_events r js = map (\<lambda>(sid, n). (sid, Recv (In_JOIN_REQUEST r n))) js"

definition disconnect_events :: "SocketId list \<Rightarrow> (SocketId \<times> action) list" where
  "disconnect_events ds = map (\<lambda>sid. (sid, Disconnect)) ds"

section \<open>Example sessions\<close>

definition userA :: User where "userA = newUser ''A'' ''R'' ''a''"
definition userB :: User where "userB = newUser ''B'' ''R'' ''b''"
definition userC :: User where "userC = newUser ''C'' ''R'' ''c''"

definition alice_offline :: User where
  "alice_offline = (newUser ''A'' ''R'' ''alice'')\<lparr>status := OFFLINE\<rparr>"

text \<open>A and B have joined room R in that order; C is connected and has not joined.\<close>

definition trace_ab :: "(SocketId \<times> action) list" where
  "trace_ab =
     [(''A'', Connect), (''A'', Recv (In_JOIN_REQUEST ''R'' ''a'')),
      (''B'', Connect), (''B'', Recv (In_JOIN_REQUEST ''R'' ''b'')),
      (''C'', Connect)]"

definition trace_abc :: "(SocketId \<times> action) list" where
  "trace_abc = trace_ab @ [(''C'', Recv (In_JOIN_REQUEST ''R'' ''c''))]"

text \<open>A joins R as alice and is then marked offline; B is connected.\<close>

definition trace_offline :: "(SocketId \<times> action) list" where
  "trace_offline =
     [(''A'', Connect), (''A'', Recv (In_JOIN_REQUEST ''R'' ''alice'')),
      (''A'', Recv (In_USER_OFFLINE ''A'')), (''B'', Connect)]"

text \<open>One connection joins the same room twice, under two names.\<close>

definition trace_rejoin :: "(SocketId \<times> action) list" where
  "trace_rejoin =
     [(''X'', Connect), (''X'', Recv (In_JOIN_REQUEST ''R'' ''x'')),
      (''X'', Recv (In_JOIN_REQUEST ''R'' ''y''))]"

definition trace_conn :: "(SocketId \<times> action) list" where
  "trace_conn = [(''A'', Connect), (''B'', Connect)]"

text \<open>
  Room ids are chosen by the clients and socket ids are sent to them in every roster, so
  a client can ask to join a room whose name is a socket id. In the first session A, B, C
  and D are all in room R and B has also joined the room named by A's id. In the second
  the room that A and B have joined is named by D's id, A has also joined the room named
  by C's id, and C and D have not joined anything.
\<close>

definition trace_alias :: "(SocketId \<times> action) list" where
  "trace_alias =
     [(''A'', Connect), (''B'', Connect), (''C'', Connect), (''D'', Connect),
      (''A'', Recv (In_JOIN_REQUEST ''R'' ''a'')), (''B'', Recv (In_JOIN_REQUEST ''R'' ''b'')),
      (''C'', Recv (In_JOIN_REQUEST ''R'' ''c'')), (''D'', Recv (In_JOIN_REQUEST ''R'' ''d'')),
      (''B'', Recv (In_JOIN_REQUEST ''A'' ''b''))]"

definition trace_alias_join :: "(SocketId \<times> action) list" where
  "trace_alias_join =
     [(''A'', Connect), (''B'', Connect), (''C'', Connect), (''D'', Connect),
      (''A'', Recv (In_JOIN_REQUEST ''D'' ''a'')), (''B'', Recv (In_JOIN_REQUEST ''D'' ''b'')),
      (''A'', Recv (In_JOIN_REQUEST ''C'' ''a''))]"

section \<open>Evaluating the example sessions\<close>

lemmas eval_defs = init_def on_JOIN_REQUEST_def on_disconnecting_def emit_def socket_join_def
  socket_leave_def isUsernameExist_def getUsersInRoom_def getRoomId_def getUserBySocketId_def
  newUser_def connected_def Let_def

lemmas eval_more = eval_defs on_USER_OFFLINE_def on_USER_ONLINE_def set_status_def

lemma run_ab_reg: "userSocketMap (run init trace_ab) = [userA, userB]"
  by (simp add: trace_ab_def userA_def userB_def eval_defs)



lemma run_abc_rooms:
  "rooms (run init trace_abc) ''R'' = {''A'', ''B'', ''C''}"
  "rooms (run init trace_abc) ''A'' = {''A''}"
  by (auto simp add: trace_abc_def trace_ab_def eval_defs)


lemma run_alias_rooms:
  "rooms (run init trace_alias) ''R'' = {''A'', ''B'', ''C'', ''D''}"
  "rooms (run init trace_alias) ''A'' = {''A'', ''B''}"
  by (auto simp add: trace_alias_def eval_defs)

lemma run_alias_join_reg:
  "userSocketMap (run init trace_alias_join) =
     [newUser ''A'' ''D'' ''a'', newUser ''B'' ''D'' ''b'', newUser ''A'' ''C'' ''a'']"
  by (simp add: trace_alias_join_def eval_defs)

lemma run_alias_join_rooms:
  "rooms (run init trace_alias_join) ''D'' = {''A'', ''B'', ''D''}"
  "rooms (run init trace_alias_join) ''C'' = {''A'', ''C''}"
  by (auto simp add: trace_alias_join_def eval_defs)

lemma wf_alias: "wf_trace init trace_alias" "wf_trace init trace_alias_join"
  by (simp_all add: trace_alias_def trace_alias_join_def eval_defs)

lemma run_ab_live: "connected (run init trace_ab) ''C''" "\<not> connected (run init trace_ab) ''R''"
  by (simp_all add: trace_ab_def eval_defs)

lemma wf_ab: "wf_trace init trace_ab"
  by (simp add: trace_ab_def userA_def userB_def eval_defs)

lemma user_fields:
  "socketId userA = ''A''" "socketId userB = ''B''" "username userA = ''a''"
  "username userB = ''b''" "roomId userA = ''R''" "roomId userB = ''R''"
  by (simp_all add: userA_def userB_def newUser_def)

lemma trace_offline_reg: "userSocketMap (run init trace_offline) = [alice_offline]"
  by (simp add: trace_offline_def alice_offline_def eval_more)

section \<open>What each step does to the registry and to the rooms\<close>

lemma find_socket_None: "find (\<lambda>u. socketId u = sid) usm = None \<longleftrightarrow> sid \<notin> socketId ` set usm"
  by (auto simp: find_None_iff)


lemma filter_absent_socket:
  "sid \<notin> socketId ` set usm \<Longrightarrow> filter (\<lambda>u. socketId u \<noteq> sid) usm = usm"
  by (induction usm) auto

lemma disconnect_registry:
  "userSocketMap (fst (step s (sid, Disconnect))) =
     filter (\<lambda>u. socketId u \<noteq> sid) (userSocketMap s)"
  by (auto simp: on_disconnecting_def getUserBySocketId_def Let_def find_socket_None
        filter_absent_socket split: option.splits)

lemma disconnect_rooms: "rooms (fst (step s (sid, Disconnect))) r = rooms s r - {sid}"
  by (auto simp: on_disconnecting_def Let_def socket_leave_def split: option.splits)

lemma isUsernameExist_iff:
  "isUsernameExist usm r n \<longleftrightarrow> (\<exists>u \<in> set usm. roomId u = r \<and> username u = n)"
  by (auto simp: isUsernameExist_def getUsersInRoom_def list_ex_iff)

lemma join_rejected: "isUsernameExist (userSocketMap s) r n \<Longrightarrow>
  on_JOIN_REQUEST s sid r n = (s, [\<lparr>dest = To sid, recipients = rooms s sid, event = USERNAME_EXISTS\<rparr>])"
  by (simp add: on_JOIN_REQUEST_def emit_def)

lemma join_admitted_registry: "\<not> isUsernameExist (userSocketMap s) r n \<Longrightarrow>
  userSocketMap (fst (on_JOIN_REQUEST s sid r n)) = userSocketMap s @ [newUser sid r n]"
  by (simp add: on_JOIN_REQUEST_def Let_def)

lemma join_admitted_rooms: "\<not> isUsernameExist (userSocketMap s) r n \<Longrightarrow>
  rooms (fst (on_JOIN_REQUEST s sid r n)) = (rooms s)(r := insert sid (rooms s r))"
  by (simp add: on_JOIN_REQUEST_def Let_def socket_join_def)

lemma own_room_state: "fst (broadcast_to_own_room s sid e) = s"
  by (simp add: broadcast_to_own_room_def split: option.splits)

lemma keys_map:
  "(\<And>u. socketId (f u) = socketId u \<and> roomId (f u) = roomId u) \<Longrightarrow> keys (map f usm) = keys usm"
  by (simp add: keys_def image_image)

lemma handle_other_rooms: "\<not> is_join m \<Longrightarrow> rooms (fst (handle s sid m)) = rooms s"
  by (cases m)
     (simp_all add: is_join_def own_room_state on_SIGNAL_ICE_CANDIDATE_def on_SIGNAL_OFFER_def
        on_SIGNAL_ANSWER_def on_SYNC_FILE_STRUCTURE_def on_DIRECTORY_CREATED_def
        on_DIRECTORY_UPDATED_def on_DIRECTORY_RENAMED_def on_DIRECTORY_DELETED_def
        on_FILE_CREATED_def on_FILE_UPDATED_def on_FILE_RENAMED_def on_FILE_DELETED_def
        on_SEND_MESSAGE_def on_REQUEST_DRAWING_def on_SYNC_DRAWING_def on_USER_OFFLINE_def
        on_USER_ONLINE_def on_TYPING_START_def on_TYPING_PAUSE_def Let_def
        split: option.splits)

lemma handle_other_keys:
  "\<not> is_join m \<Longrightarrow> keys (userSocketMap (fst (handle s sid m))) = keys (userSocketMap s)"
  by (cases m)
     (simp_all add: is_join_def own_room_state on_SIGNAL_ICE_CANDIDATE_def on_SIGNAL_OFFER_def
        on_SIGNAL_ANSWER_def on_SYNC_FILE_STRUCTURE_def on_DIRECTORY_CREATED_def
        on_DIRECTORY_UPDATED_def on_DIRECTORY_RENAMED_def on_DIRECTORY_DELETED_def
        on_FILE_CREATED_def on_FILE_UPDATED_def on_FILE_RENAMED_def on_FILE_DELETED_def
        on_SEND_MESSAGE_def on_REQUEST_DRAWING_def on_SYNC_DRAWING_def on_USER_OFFLINE_def
        on_USER_ONLINE_def on_TYPING_START_def on_TYPING_PAUSE_def Let_def set_status_def
        keys_map split: option.splits)

lemma handle_other_ids:
  "\<not> is_join m \<Longrightarrow>
     map socketId (userSocketMap (fst (handle s sid m))) = map socketId (userSocketMap s)"
  by (cases m)
     (simp_all add: is_join_def own_room_state on_SIGNAL_ICE_CANDIDATE_def on_SIGNAL_OFFER_def
        on_SIGNAL_ANSWER_def on_SYNC_FILE_STRUCTURE_def on_DIRECTORY_CREATED_def
        on_DIRECTORY_UPDATED_def on_DIRECTORY_RENAMED_def on_DIRECTORY_DELETED_def
        on_FILE_CREATED_def on_FILE_UPDATED_def on_FILE_RENAMED_def on_FILE_DELETED_def
        on_SEND_MESSAGE_def on_REQUEST_DRAWING_def on_SYNC_DRAWING_def on_USER_OFFLINE_def
        on_USER_ONLINE_def on_TYPING_START_def on_TYPING_PAUSE_def Let_def set_status_def
        o_def split: option.splits)



lemma run_append: "run s (as @ bs) = run (run s as) bs"
  by (induction as arbitrary: s) simp_all

lemma getUsersInRoom_append:
  "getUsersInRoom (xs @ ys) r = getUsersInRoom xs r @ getUsersInRoom ys r"
  by (simp add: getUsersInRoom_def)

section \<open>The rooms of socket.io follow the registry\<close>

text \<open>
  The handlers call \<open>socket.join\<close> exactly when they add a record and socket.io empties
  a socket's rooms when it disconnects, so on every well-formed trace from the initial
  state the members of a room can be read off the registry.
\<close>

lemma rooms_match_init: "rooms_match init"
  by (simp add: rooms_match_def init_def keys_def connected_def)

lemma rooms_match_cong:
  "rooms s' = rooms s \<Longrightarrow> keys (userSocketMap s') = keys (userSocketMap s) \<Longrightarrow>
     rooms_match s' = rooms_match s"
  by (simp add: rooms_match_def connected_def)

lemma rooms_matchI:
  assumes "\<And>x r. x \<in> rooms s r \<longleftrightarrow> x \<in> rooms s x \<and> (r = x \<or> (x, r) \<in> keys (userSocketMap s))"
    and "\<And>x r. (x, r) \<in> keys (userSocketMap s) \<Longrightarrow> x \<in> rooms s x"
  shows "rooms_match s"
  unfolding rooms_match_def connected_def using assms by blast

lemma rooms_match_member:
  "rooms_match s \<Longrightarrow>
     x \<in> rooms s r \<longleftrightarrow> x \<in> rooms s x \<and> (r = x \<or> (x, r) \<in> keys (userSocketMap s))"
  unfolding rooms_match_def connected_def by blast

lemma rooms_match_registered:
  "rooms_match s \<Longrightarrow> (x, r) \<in> keys (userSocketMap s) \<Longrightarrow> x \<in> rooms s x"
  unfolding rooms_match_def connected_def by blast

lemma connect_rooms:
  "x \<in> rooms (fst (step s (sid, Connect))) r \<longleftrightarrow> (x = sid \<and> r = sid) \<or> x \<in> rooms s r"
  by (auto simp: socket_join_def)

lemma connect_registry: "userSocketMap (fst (step s (sid, Connect))) = userSocketMap s"
  by simp

lemma rooms_match_connect:
  assumes inv: "rooms_match s" and new: "\<not> connected s sid"
  shows "rooms_match (fst (step s (sid, Connect)))"
proof (rule rooms_matchI)
  fix x r
  have nowhere: "sid \<notin> rooms s r'" for r'
    using rooms_match_member [OF inv, of sid r'] new by (simp add: connected_def)
  show "x \<in> rooms (fst (step s (sid, Connect))) r \<longleftrightarrow>
          x \<in> rooms (fst (step s (sid, Connect))) x
          \<and> (r = x \<or> (x, r) \<in> keys (userSocketMap (fst (step s (sid, Connect)))))"
    unfolding connect_rooms connect_registry
    using rooms_match_member [OF inv, of x r] rooms_match_registered [OF inv, of x r]
      nowhere [of r] nowhere [of sid]
    by blast
  show "x \<in> rooms (fst (step s (sid, Connect))) x"
    if "(x, r) \<in> keys (userSocketMap (fst (step s (sid, Connect))))"
    using that rooms_match_registered [OF inv, of x r]
    unfolding connect_rooms connect_registry by blast
qed

lemma disconnect_keys:
  "(x, r) \<in> keys (userSocketMap (fst (step s (sid, Disconnect)))) \<longleftrightarrow>
     x \<noteq> sid \<and> (x, r) \<in> keys (userSocketMap s)"
  unfolding disconnect_registry by (auto simp: keys_def)

lemma rooms_match_disconnect:
  assumes inv: "rooms_match s"
  shows "rooms_match (fst (step s (sid, Disconnect)))"
proof (rule rooms_matchI)
  fix x r
  show "x \<in> rooms (fst (step s (sid, Disconnect))) r \<longleftrightarrow>
          x \<in> rooms (fst (step s (sid, Disconnect))) x
          \<and> (r = x \<or> (x, r) \<in> keys (userSocketMap (fst (step s (sid, Disconnect)))))"
    unfolding disconnect_rooms disconnect_keys
    using rooms_match_member [OF inv, of x r]
    by blast
  show "x \<in> rooms (fst (step s (sid, Disconnect))) x"
    if "(x, r) \<in> keys (userSocketMap (fst (step s (sid, Disconnect))))"
    using that rooms_match_registered [OF inv, of x r]
    unfolding disconnect_rooms disconnect_keys by blast
qed

lemma join_admitted_member:
  assumes "\<not> isUsernameExist (userSocketMap s) r n"
  shows "x \<in> rooms (fst (on_JOIN_REQUEST s sid r n)) r' \<longleftrightarrow> (x = sid \<and> r' = r) \<or> x \<in> rooms s r'"
  unfolding join_admitted_rooms [OF assms] by auto

lemma join_admitted_keys:
  assumes "\<not> isUsernameExist (userSocketMap s) r n"
  shows "(x, r') \<in> keys (userSocketMap (fst (on_JOIN_REQUEST s sid r n))) \<longleftrightarrow>
           (x = sid \<and> r' = r) \<or> (x, r') \<in> keys (userSocketMap s)"
  unfolding join_admitted_registry [OF assms] by (auto simp: keys_def newUser_def)

lemma rooms_match_join:
  assumes inv: "rooms_match s" and live: "connected s sid"
  shows "rooms_match (fst (on_JOIN_REQUEST s sid r n))"
proof (cases "isUsernameExist (userSocketMap s) r n")
  case True
  then show ?thesis using inv by (simp add: join_rejected)
next
  case False
  have own: "sid \<in> rooms s sid"
    using live by (simp add: connected_def)
  show ?thesis
  proof (rule rooms_matchI)
    fix x r'
    show "x \<in> rooms (fst (on_JOIN_REQUEST s sid r n)) r' \<longleftrightarrow>
            x \<in> rooms (fst (on_JOIN_REQUEST s sid r n)) x
            \<and> (r' = x \<or> (x, r') \<in> keys (userSocketMap (fst (on_JOIN_REQUEST s sid r n))))"
      unfolding join_admitted_member [OF False] join_admitted_keys [OF False]
      using rooms_match_member [OF inv, of x r'] own
      by blast
    show "x \<in> rooms (fst (on_JOIN_REQUEST s sid r n)) x"
      if "(x, r') \<in> keys (userSocketMap (fst (on_JOIN_REQUEST s sid r n)))"
      using that rooms_match_registered [OF inv, of x r'] own
      unfolding join_admitted_member [OF False] join_admitted_keys [OF False] by blast
  qed
qed

lemma rooms_match_step:
  assumes "rooms_match s" and "if a = Connect then \<not> connected s sid else connected s sid"
  shows "rooms_match (fst (step s (sid, a)))"
proof (cases a)
  case Connect
  with assms show ?thesis by (simp add: rooms_match_connect del: step.simps)
next
  case Disconnect
  with assms show ?thesis by (simp add: rooms_match_disconnect del: step.simps)
next
  case (Recv m)
  show ?thesis
  proof (cases "is_join m")
    case True
    then obtain r n where "m = In_JOIN_REQUEST r n"
      by (cases m) (simp_all add: is_join_def)
    with assms Recv show ?thesis by (simp add: rooms_match_join)
  next
    case False
    with assms(1) Recv show ?thesis
      by (simp add: rooms_match_cong [OF handle_other_rooms handle_other_keys])
  qed
qed

lemma rooms_match_run:
  "rooms_match s \<Longrightarrow> wf_trace s tr \<Longrightarrow> rooms_match (run s tr)"
proof (induction tr arbitrary: s)
  case Nil
  then show ?case by simp
next
  case (Cons a tr)
  obtain sid act where a: "a = (sid, act)" by (cases a)
  from Cons.prems(2) have ok: "if act = Connect then \<not> connected s sid else connected s sid"
    and rest: "wf_trace (fst (step s (sid, act))) tr"
    unfolding a wf_trace.simps by blast+
  have "rooms_match (fst (step s (sid, act)))"
    using Cons.prems(1) ok by (rule rooms_match_step)
  then have "rooms_match (run (fst (step s (sid, act))) tr)"
    using rest by (rule Cons.IH)
  then show ?case
    unfolding a run.simps .
qed

lemma keys_room:
  "(x, r) \<in> keys usm \<longleftrightarrow> x \<in> socketId ` set (getUsersInRoom usm r)"
proof -
  have "(x, r) \<in> keys usm \<longleftrightarrow> (\<exists>u \<in> set usm. socketId u = x \<and> roomId u = r)"
    unfolding keys_def image_iff by (simp add: eq_commute conj_commute)
  also have "\<dots> \<longleftrightarrow> x \<in> socketId ` set (getUsersInRoom usm r)"
    unfolding getUsersInRoom_def image_iff set_filter by blast
  finally show ?thesis .
qed

lemma room_members:
  assumes inv: "rooms_match s" and free: "\<not> connected s r"
  shows "rooms s r = socketId ` set (getUsersInRoom (userSocketMap s) r)"
proof (rule set_eqI)
  fix x
  note m = rooms_match_member [OF inv, of x r]
  have "x \<in> rooms s r \<longleftrightarrow> (x, r) \<in> keys (userSocketMap s)"
  proof
    assume "x \<in> rooms s r"
    with m have own: "x \<in> rooms s x" and d: "r = x \<or> (x, r) \<in> keys (userSocketMap s)"
      by blast+
    from own free have "r \<noteq> x"
      unfolding connected_def by blast
    with d show "(x, r) \<in> keys (userSocketMap s)" by blast
  next
    assume k: "(x, r) \<in> keys (userSocketMap s)"
    with inv have "x \<in> rooms s x" by (rule rooms_match_registered)
    with m k show "x \<in> rooms s r" by blast
  qed
  then show "x \<in> rooms s r \<longleftrightarrow> x \<in> socketId ` set (getUsersInRoom (userSocketMap s) r)"
    unfolding keys_room .
qed

lemma private_room:
  assumes inv: "rooms_match s" and live: "connected s sid"
  shows "rooms s sid = insert sid (socketId ` set (getUsersInRoom (userSocketMap s) sid))"
proof (rule set_eqI)
  fix x
  note m = rooms_match_member [OF inv, of x sid]
  have "x \<in> rooms s sid \<longleftrightarrow> x = sid \<or> (x, sid) \<in> keys (userSocketMap s)"
  proof
    assume "x \<in> rooms s sid"
    with m show "x = sid \<or> (x, sid) \<in> keys (userSocketMap s)" by blast
  next
    assume "x = sid \<or> (x, sid) \<in> keys (userSocketMap s)"
    then show "x \<in> rooms s sid"
    proof
      assume "x = sid"
      with live show ?thesis unfolding connected_def by simp
    next
      assume k: "(x, sid) \<in> keys (userSocketMap s)"
      with inv have "x \<in> rooms s x" by (rule rooms_match_registered)
      with m k show ?thesis by blast
    qed
  qed
  then show "x \<in> rooms s sid \<longleftrightarrow>
               x \<in> insert sid (socketId ` set (getUsersInRoom (userSocketMap s) sid))"
    unfolding keys_room insert_iff .
qed

section \<open>Joining a room\<close>

text \<open>
  C1, as the code has it. Let the server be in a state reached from the initial one by a
  well-formed trace, let the registry records of room \<open>r\<close> be \<open>a\<close> and \<open>b\<close> in that
  order, and let a connected socket \<open>sid\<close>, different from the sockets of \<open>a\<close> and
  \<open>b\<close>, send a join request for \<open>r\<close> with a name neither of them uses. Let room and
  socket names be apart here: \<open>r\<close> is not the id of a connected socket and no record has
  the id \<open>sid\<close> as its room. Then the handler makes exactly two emissions: one
  \<open>USER_JOINED\<close> with the new record, received by exactly the sockets of \<open>a\<close> and
  \<open>b\<close>; and one \<open>JOIN_ACCEPTED\<close>, received by \<open>sid\<close> alone, with the new record and
  the roster \<open>[a, b, new]\<close>: the list is read after the push, so the joiner is its last
  element.
\<close>

theorem join_roster_includes_joiner:
  assumes wf: "wf_trace init tr"
    and room: "getUsersInRoom (userSocketMap (run init tr)) r = [a, b]"
    and live: "connected (run init tr) sid"
    and other: "socketId a \<noteq> sid" "socketId b \<noteq> sid"
    and name: "username a \<noteq> n" "username b \<noteq> n"
    and plain: "\<not> connected (run init tr) r"
    and alone: "getUsersInRoom (userSocketMap (run init tr)) sid = []"
  shows "snd (on_JOIN_REQUEST (run init tr) sid r n) =
           [\<lparr>dest = BroadcastTo sid r, recipients = {socketId a, socketId b},
             event = USER_JOINED (newUser sid r n)\<rparr>,
            \<lparr>dest = To sid, recipients = {sid},
             event = JOIN_ACCEPTED (newUser sid r n) [a, b, newUser sid r n]\<rparr>]"
proof -
  let ?s = "run init tr"
  have inv: "rooms_match ?s"
    using rooms_match_init wf by (rule rooms_match_run)
  have free: "\<not> isUsernameExist (userSocketMap ?s) r n"
    using name by (simp add: isUsernameExist_def room)
  have own: "rooms ?s sid = {sid}"
    using private_room [OF inv live] by (simp add: alone)
  have "r \<noteq> sid"
    using live plain by blast
  have "rooms ?s r = {socketId a, socketId b}"
    using room_members [OF inv plain] by (simp add: room)
  then have bc: "insert sid (rooms ?s r) - {sid} = {socketId a, socketId b}"
    using other by blast
  have roster: "getUsersInRoom (userSocketMap ?s @ [newUser sid r n]) r = [a, b, newUser sid r n]"
    by (simp add: getUsersInRoom_append room) (simp add: getUsersInRoom_def newUser_def)
  have "snd (on_JOIN_REQUEST ?s sid r n) =
           [\<lparr>dest = BroadcastTo sid r, recipients = insert sid (rooms ?s r) - rooms ?s sid,
             event = USER_JOINED (newUser sid r n)\<rparr>,
            \<lparr>dest = To sid, recipients = rooms ?s sid,
             event = JOIN_ACCEPTED (newUser sid r n)
                       (getUsersInRoom (userSocketMap ?s @ [newUser sid r n]) r)\<rparr>]"
    using free \<open>r \<noteq> sid\<close>
    by (simp add: on_JOIN_REQUEST_def Let_def emit_def socket_join_def)
  then show ?thesis
    unfolding own bc roster .
qed

text \<open>
  The statement at the session \<open>trace_ab\<close>, with C joining as \<open>c\<close>.
\<close>

theorem join_roster_includes_joiner_witness:
  "wf_trace init trace_ab
   \<and> getUsersInRoom (userSocketMap (run init trace_ab)) ''R'' = [userA, userB]
   \<and> connected (run init trace_ab) ''C'' \<and> \<not> connected (run init trace_ab) ''R''
   \<and> getUsersInRoom (userSocketMap (run init trace_ab)) ''C'' = []
   \<and> snd (on_JOIN_REQUEST (run init trace_ab) ''C'' ''R'' ''c'') =
       [\<lparr>dest = BroadcastTo ''C'' ''R'', recipients = {''A'', ''B''}, event = USER_JOINED userC\<rparr>,
        \<lparr>dest = To ''C'', recipients = {''C''},
          event = JOIN_ACCEPTED userC [userA, userB, userC]\<rparr>]"
proof -
  have room: "getUsersInRoom (userSocketMap (run init trace_ab)) ''R'' = [userA, userB]"
    by (simp add: run_ab_reg getUsersInRoom_def user_fields)
  have alone: "getUsersInRoom (userSocketMap (run init trace_ab)) ''C'' = []"
    by (simp add: run_ab_reg getUsersInRoom_def user_fields)
  have ids: "socketId userA \<noteq> ''C''" "socketId userB \<noteq> ''C''"
    and names: "username userA \<noteq> ''c''" "username userB \<noteq> ''c''"
    by (simp_all add: user_fields)
  from join_roster_includes_joiner
         [OF wf_ab room run_ab_live(1) ids names run_ab_live(2) alone]
  show ?thesis
    using wf_ab room alone run_ab_live by (simp add: user_fields userC_def)
qed

text \<open>
  C1 as the specification words it asks for the roster \<open>[A, B]\<close>, for a notice to A and
  to B and to no one else, and for the acceptance to C, in every state where the room
  holds exactly A and B. In the session \<open>trace_alias_join\<close> the registry records of
  room D are those of A and B, in that order, and C asks to join it as \<open>c\<close>. The roster
  sent has three entries; the notice reaches B and D, not A, who has joined the room named
  by C's id, and D, whose own room this is, is no participant; the acceptance reaches A as
  well as C.
\<close>

theorem join_roster_counterexample:
  "wf_trace init trace_alias_join
   \<and> getUsersInRoom (userSocketMap (run init trace_alias_join)) ''D''
       = [newUser ''A'' ''D'' ''a'', newUser ''B'' ''D'' ''b'']
   \<and> map event (snd (on_JOIN_REQUEST (run init trace_alias_join) ''C'' ''D'' ''c''))
       = [USER_JOINED (newUser ''C'' ''D'' ''c''),
          JOIN_ACCEPTED (newUser ''C'' ''D'' ''c'')
            [newUser ''A'' ''D'' ''a'', newUser ''B'' ''D'' ''b'', newUser ''C'' ''D'' ''c'']]
   \<and> map recipients (snd (on_JOIN_REQUEST (run init trace_alias_join) ''C'' ''D'' ''c''))
       = [{''B'', ''D''}, {''A'', ''C''}]"
proof -
  have "map recipients (snd (on_JOIN_REQUEST (run init trace_alias_join) ''C'' ''D'' ''c''))
          = [insert ''C'' (rooms (run init trace_alias_join) ''D'')
               - rooms (run init trace_alias_join) ''C'',
             rooms (run init trace_alias_join) ''C'']"
    by (simp add: run_alias_join_reg on_JOIN_REQUEST_def isUsernameExist_def getUsersInRoom_def
          newUser_def Let_def emit_def socket_join_def)
  also have "\<dots> = [{''B'', ''D''}, {''A'', ''C''}]"
    unfolding run_alias_join_rooms by auto
  finally show ?thesis
    by (simp add: wf_alias)
       (simp add: run_alias_join_reg on_JOIN_REQUEST_def isUsernameExist_def
          getUsersInRoom_def newUser_def Let_def emit_def)
qed

text \<open>
  C2, as the code has it. A join request for \<open>(r, n)\<close> is answered by
  \<open>USERNAME_EXISTS\<close> exactly when some record of room \<open>r\<close> has the name \<open>n\<close>, whatever
  its status. When no record of the room has the name, the registry grows by one record at
  its end, with status \<open>ONLINE\<close>, cursor position 0, typing false and no current file, and
  the two admission events are emitted.
\<close>

theorem join_admission_rule:
  "(map event (snd (on_JOIN_REQUEST s sid r n)) = [USERNAME_EXISTS]
      \<longleftrightarrow> (\<exists>u \<in> set (userSocketMap s). roomId u = r \<and> username u = n))
   \<and> ((\<forall>u \<in> set (userSocketMap s). roomId u = r \<longrightarrow> username u \<noteq> n) \<longrightarrow>
        userSocketMap (fst (on_JOIN_REQUEST s sid r n)) =
          userSocketMap s @
            [\<lparr>username = n, roomId = r, status = ONLINE, cursorPosition = 0, typing = False,
              socketId = sid, currentFile = None\<rparr>]
        \<and> map event (snd (on_JOIN_REQUEST s sid r n)) =
            [USER_JOINED (newUser sid r n),
             JOIN_ACCEPTED (newUser sid r n)
               (getUsersInRoom (userSocketMap s) r @ [newUser sid r n])])"
  by (auto simp: on_JOIN_REQUEST_def isUsernameExist_iff emit_def Let_def newUser_def
        getUsersInRoom_def)

text \<open>
  The statement at the session \<open>trace_offline\<close>: B is admitted as \<open>bob\<close> and refused as
  \<open>alice\<close>.
\<close>

theorem join_admission_rule_witness:
  "userSocketMap (run init trace_offline) = [alice_offline]
   \<and> username alice_offline = ''alice''
   \<and> userSocketMap (fst (on_JOIN_REQUEST (run init trace_offline) ''B'' ''R'' ''bob''))
       = [alice_offline, newUser ''B'' ''R'' ''bob'']
   \<and> status (newUser ''B'' ''R'' ''bob'') = ONLINE
   \<and> map event (snd (on_JOIN_REQUEST (run init trace_offline) ''B'' ''R'' ''alice''))
       = [USERNAME_EXISTS]"
proof -
  have free: "\<forall>u \<in> set (userSocketMap (run init trace_offline)).
                roomId u = ''R'' \<longrightarrow> username u \<noteq> ''bob''"
    by (simp add: trace_offline_reg alice_offline_def newUser_def)
  have taken: "\<exists>u \<in> set (userSocketMap (run init trace_offline)).
                roomId u = ''R'' \<and> username u = ''alice''"
    by (simp add: trace_offline_reg alice_offline_def newUser_def)
  from join_admission_rule [of "run init trace_offline" "''B''" "''R''" "''bob''"] free
  have "userSocketMap (fst (on_JOIN_REQUEST (run init trace_offline) ''B'' ''R'' ''bob''))
          = [alice_offline, newUser ''B'' ''R'' ''bob'']"
    by (simp add: trace_offline_reg newUser_def)
  moreover
  from join_admission_rule [of "run init trace_offline" "''B''" "''R''" "''alice''"] taken
  have "map event (snd (on_JOIN_REQUEST (run init trace_offline) ''B'' ''R'' ''alice''))
          = [USERNAME_EXISTS]"
    by blast
  ultimately show ?thesis
    by (simp add: trace_offline_reg) (simp add: alice_offline_def newUser_def)
qed

text \<open>
  C2 as the specification words it lets an offline holder's name be taken again. In
  \<open>trace_offline\<close> the only record of room R is offline and named \<open>alice\<close>, and a join
  request for that name is refused and changes nothing.
\<close>

theorem join_offline_name_counterexample:
  "userSocketMap (run init trace_offline) = [alice_offline]
   \<and> status alice_offline = OFFLINE
   \<and> map event (snd (on_JOIN_REQUEST (run init trace_offline) ''B'' ''R'' ''alice''))
       = [USERNAME_EXISTS]
   \<and> userSocketMap (fst (on_JOIN_REQUEST (run init trace_offline) ''B'' ''R'' ''alice''))
       = [alice_offline]"
  by (simp add: trace_offline_reg on_JOIN_REQUEST_def isUsernameExist_def getUsersInRoom_def
        emit_def)
     (simp add: alice_offline_def newUser_def)




section \<open>One record per connection\<close>

lemma step_keeps_ids_distinct:
  assumes "\<not> readmits s a" and d: "distinct (map socketId (userSocketMap s))"
  shows "distinct (map socketId (userSocketMap (fst (step s a))))"
proof -
  obtain sid act where a: "a = (sid, act)" by (cases a)
  show ?thesis
  proof (cases act)
    case Connect
    with d show ?thesis unfolding a by simp
  next
    case Disconnect
    show ?thesis
      unfolding a Disconnect disconnect_registry using d by (rule distinct_map_filter)
  next
    case (Recv m)
    show ?thesis
    proof (cases "is_join m")
      case False
      then show ?thesis
        unfolding a Recv using d by (simp add: handle_other_ids)
    next
      case True
      then obtain r n where m: "m = In_JOIN_REQUEST r n"
        by (cases m) (simp_all add: is_join_def)
      show ?thesis
      proof (cases "isUsernameExist (userSocketMap s) r n")
        case True
        then show ?thesis
          unfolding a Recv m using d by (simp add: join_rejected)
      next
        case False
        with assms(1) have "getUserBySocketId (userSocketMap s) sid = None"
          unfolding a Recv m by simp
        then have "sid \<notin> socketId ` set (userSocketMap s)"
          by (simp add: getUserBySocketId_def find_socket_None)
        then show ?thesis
          unfolding a Recv m using d False
          by (simp add: join_admitted_registry newUser_def)
      qed
    qed
  qed
qed

lemma run_keeps_ids_distinct:
  "no_readmission s tr \<Longrightarrow> distinct (map socketId (userSocketMap s)) \<Longrightarrow>
     distinct (map socketId (userSocketMap (run s tr)))"
proof (induction tr arbitrary: s)
  case Nil
  then show ?case by simp
next
  case (Cons a tr)
  from Cons.prems(1) have now: "\<not> readmits s a" and later: "no_readmission (fst (step s a)) tr"
    unfolding no_readmission.simps by blast+
  have "distinct (map socketId (userSocketMap (fst (step s a))))"
    using now Cons.prems(2) by (rule step_keeps_ids_distinct)
  with later have "distinct (map socketId (userSocketMap (run (fst (step s a)) tr)))"
    by (rule Cons.IH)
  then show ?case unfolding run.simps .
qed

text \<open>
  C4, as the code has it. The join handler never looks for a record of the sending socket,
  so uniqueness of socket ids in the registry holds along every trace from the initial
  state in which no join request is admitted from a socket that already has a record.
  Disconnects and the status, typing and relay events never break it.
\<close>

theorem single_record_without_readmission:
  "no_readmission init tr \<Longrightarrow> distinct (map socketId (userSocketMap (run init tr)))"
  by (rule run_keeps_ids_distinct) (simp_all add: init_def)

text \<open>
  The statement at the session \<open>trace_abc\<close>.
\<close>

theorem single_record_without_readmission_witness:
  "no_readmission init trace_abc
   \<and> map socketId (userSocketMap (run init trace_abc)) = [''A'', ''B'', ''C'']
   \<and> distinct (map socketId (userSocketMap (run init trace_abc)))"
proof -
  have ok: "no_readmission init trace_abc"
    by (simp add: trace_abc_def trace_ab_def eval_defs)
  have ids: "map socketId (userSocketMap (run init trace_abc)) = [''A'', ''B'', ''C'']"
    by (simp add: trace_abc_def trace_ab_def eval_defs)
  from single_record_without_readmission [OF ok] ok ids show ?thesis
    by blast
qed

text \<open>
  C4 as the specification words it holds for every sequence of events. A connection that
  sends two join requests with two names gets two records.
\<close>

theorem duplicate_record_counterexample:
  "wf_trace init trace_rejoin
   \<and> map socketId (userSocketMap (run init trace_rejoin)) = [''X'', ''X'']
   \<and> \<not> distinct (map socketId (userSocketMap (run init trace_rejoin)))"
  by (simp add: trace_rejoin_def eval_defs)

section \<open>Signalling\<close>

lemma broadcast_by_registry:
  assumes wf: "wf_trace init tr" and live: "connected (run init tr) sid"
    and plain: "\<not> connected (run init tr) r"
  shows "rooms (run init tr) r - rooms (run init tr) sid =
           socketId ` set (getUsersInRoom (userSocketMap (run init tr)) r)
             - insert sid (socketId ` set (getUsersInRoom (userSocketMap (run init tr)) sid))"
proof -
  have inv: "rooms_match (run init tr)"
    using rooms_match_init wf by (rule rooms_match_run)
  show ?thesis
    unfolding room_members [OF inv plain] private_room [OF inv live] ..
qed

text \<open>
  C5, as the code has it. An SDP answer carries a room id, not a target connection. The
  relay leaves the state unchanged and makes one emission: the answer, tagged with the
  sender's socket id, broadcast to the room of that id, whether or not the sender has a
  record. It reaches the members of that room that are not in the room named by the
  sender's id. On a well-formed trace, for a room id that is not a socket id, these are
  the sockets with a record in the room, without the sender and without the sockets that
  have a record in the room named by the sender's id.
\<close>

theorem answer_is_room_broadcast:
  "handle s sid (In_SIGNAL_ANSWER answer r rest) =
     (s, [\<lparr>dest = BroadcastTo sid r, recipients = rooms s r - rooms s sid,
           event = SIGNAL_ANSWER answer sid\<rparr>])
   \<and> (wf_trace init tr \<and> s = run init tr \<and> connected s sid \<and> \<not> connected s r \<longrightarrow>
        rooms s r - rooms s sid =
          socketId ` set (getUsersInRoom (userSocketMap s) r)
            - insert sid (socketId ` set (getUsersInRoom (userSocketMap s) sid)))"
proof (intro conjI impI)
  show "handle s sid (In_SIGNAL_ANSWER answer r rest) =
     (s, [\<lparr>dest = BroadcastTo sid r, recipients = rooms s r - rooms s sid,
           event = SIGNAL_ANSWER answer sid\<rparr>])"
    by (simp add: on_SIGNAL_ANSWER_def emit_def)
next
  assume "wf_trace init tr \<and> s = run init tr \<and> connected s sid \<and> \<not> connected s r"
  then have wf: "wf_trace init tr" and s: "s = run init tr"
    and live: "connected (run init tr) sid" and plain: "\<not> connected (run init tr) r"
    by blast+
  show "rooms s r - rooms s sid =
          socketId ` set (getUsersInRoom (userSocketMap s) r)
            - insert sid (socketId ` set (getUsersInRoom (userSocketMap s) sid))"
    unfolding s using wf live plain by (rule broadcast_by_registry)
qed

text \<open>
  The statement at the session \<open>trace_abc\<close>: A, B and C are in room R, nobody has joined
  the room named by A's id, and an answer from A reaches B and C.
\<close>

theorem answer_is_room_broadcast_witness:
  "wf_trace init trace_abc \<and> connected (run init trace_abc) ''A''
   \<and> \<not> connected (run init trace_abc) ''R''
   \<and> map socketId (getUsersInRoom (userSocketMap (run init trace_abc)) ''R'')
        = [''A'', ''B'', ''C'']
   \<and> getUsersInRoom (userSocketMap (run init trace_abc)) ''A'' = []
   \<and> handle (run init trace_abc) ''A'' (In_SIGNAL_ANSWER ''sdp'' ''R'' []) =
       (run init trace_abc,
        [\<lparr>dest = BroadcastTo ''A'' ''R'', recipients = {''B'', ''C''},
          event = SIGNAL_ANSWER ''sdp'' ''A''\<rparr>])"
proof -
  have wf: "wf_trace init trace_abc"
    and live: "connected (run init trace_abc) ''A''"
    and plain: "\<not> connected (run init trace_abc) ''R''"
    by (simp_all add: trace_abc_def trace_ab_def eval_defs)
  have reg: "map socketId (getUsersInRoom (userSocketMap (run init trace_abc)) ''R'')
               = [''A'', ''B'', ''C'']"
    "getUsersInRoom (userSocketMap (run init trace_abc)) ''A'' = []"
    by (simp_all add: trace_abc_def trace_ab_def eval_defs)
  note t = answer_is_room_broadcast [of "run init trace_abc" "''A''" "''sdp''" "''R''" "[]" trace_abc]
  from t wf live plain
  have "rooms (run init trace_abc) ''R'' - rooms (run init trace_abc) ''A'' =
          socketId ` set (getUsersInRoom (userSocketMap (run init trace_abc)) ''R'')
            - insert ''A''
                (socketId ` set (getUsersInRoom (userSocketMap (run init trace_abc)) ''A''))"
    by blast
  also have "\<dots> = set (map socketId (getUsersInRoom (userSocketMap (run init trace_abc)) ''R''))
                     - {''A''}"
    unfolding reg(2) by simp
  also have "\<dots> = {''B'', ''C''}"
    unfolding reg(1) by auto
  finally have r: "rooms (run init trace_abc) ''R'' - rooms (run init trace_abc) ''A''
                     = {''B'', ''C''}" .
  from t have "handle (run init trace_abc) ''A'' (In_SIGNAL_ANSWER ''sdp'' ''R'' []) =
       (run init trace_abc,
        [\<lparr>dest = BroadcastTo ''A'' ''R'',
          recipients = rooms (run init trace_abc) ''R'' - rooms (run init trace_abc) ''A'',
          event = SIGNAL_ANSWER ''sdp'' ''A''\<rparr>])"
    by blast
  then show ?thesis
    unfolding r using wf live plain reg by blast
qed

text \<open>
  C5 as the specification words it asks for a unicast to one target. In the session
  \<open>trace_alias\<close> A, B, C and D are in room R and an answer from A reaches both C and D;
  B, who has also joined the room named by A's id, is in room R and does not receive it.
\<close>

theorem answer_fanout_counterexample:
  "wf_trace init trace_alias
   \<and> rooms (run init trace_alias) ''R'' = {''A'', ''B'', ''C'', ''D''}
   \<and> map recipients
        (snd (handle (run init trace_alias) ''A'' (In_SIGNAL_ANSWER ''sdp'' ''R'' [])))
       = [{''C'', ''D''}]
   \<and> ''C'' \<noteq> ''D''"
proof -
  have "map recipients
          (snd (handle (run init trace_alias) ''A'' (In_SIGNAL_ANSWER ''sdp'' ''R'' [])))
        = [rooms (run init trace_alias) ''R'' - rooms (run init trace_alias) ''A'']"
    by (simp add: on_SIGNAL_ANSWER_def emit_def)
  also have "\<dots> = [{''C'', ''D''}]"
    unfolding run_alias_rooms by auto
  finally show ?thesis
    by (simp add: wf_alias run_alias_rooms)
qed

text \<open>
  C10. For an offer, an answer and an ICE candidate alike, the state is unchanged and the
  single emission is a broadcast to the room id of the payload, with the sender's own
  socket id as tag; it reaches the members of that room outside the room named by the
  sender's id. The properties of the payload that the handler does
  not destructure, a \<open>socketId\<close> among them, have no influence: two payloads that differ
  only there give the same result. No lookup in the registry is involved, so the relay
  happens for senders without a record too.
\<close>

theorem signal_tag_is_sender:
  "handle s sid (In_SIGNAL_OFFER body r rest) =
     (s, [\<lparr>dest = BroadcastTo sid r, recipients = rooms s r - rooms s sid,
           event = SIGNAL_OFFER body sid\<rparr>])
   \<and> handle s sid (In_SIGNAL_ANSWER body r rest) =
     (s, [\<lparr>dest = BroadcastTo sid r, recipients = rooms s r - rooms s sid,
           event = SIGNAL_ANSWER body sid\<rparr>])
   \<and> handle s sid (In_SIGNAL_ICE_CANDIDATE body r rest) =
     (s, [\<lparr>dest = BroadcastTo sid r, recipients = rooms s r - rooms s sid,
           event = SIGNAL_ICE_CANDIDATE body sid\<rparr>])
   \<and> handle s sid (In_SIGNAL_OFFER body r rest') = handle s sid (In_SIGNAL_OFFER body r rest)
   \<and> handle s sid (In_SIGNAL_ANSWER body r rest') = handle s sid (In_SIGNAL_ANSWER body r rest)
   \<and> handle s sid (In_SIGNAL_ICE_CANDIDATE body r rest') =
       handle s sid (In_SIGNAL_ICE_CANDIDATE body r rest)"
  by (simp add: on_SIGNAL_OFFER_def on_SIGNAL_ANSWER_def on_SIGNAL_ICE_CANDIDATE_def emit_def)

section \<open>Leaving\<close>




lemma joins_registry:
  "all_admitted s r js \<Longrightarrow>
     userSocketMap (run s (join_events r js)) =
       userSocketMap s @ map (\<lambda>(sid, n). newUser sid r n) js"
proof (induction js arbitrary: s)
  case Nil
  then show ?case by (simp add: join_events_def)
next
  case (Cons j js)
  obtain sid n where j: "j = (sid, n)" by (cases j)
  from Cons.prems have ok: "\<not> isUsernameExist (userSocketMap s) r n"
    and rest: "all_admitted (fst (on_JOIN_REQUEST s sid r n)) r js"
    unfolding j all_admitted.simps by blast+
  have "run s (join_events r (j # js)) = run (fst (on_JOIN_REQUEST s sid r n)) (join_events r js)"
    unfolding j by (simp add: join_events_def)
  then show ?case
    using Cons.IH [OF rest] by (simp add: join_admitted_registry [OF ok] j)
qed

lemma disconnects_registry:
  "userSocketMap (run s (disconnect_events ds)) =
     filter (\<lambda>u. socketId u \<notin> set ds) (userSocketMap s)"
proof (induction ds arbitrary: s)
  case Nil
  then show ?case by (simp add: disconnect_events_def)
next
  case (Cons d ds)
  have e: "run s (disconnect_events (d # ds)) =
          run (fst (step s (d, Disconnect))) (disconnect_events ds)"
    by (simp add: disconnect_events_def del: step.simps)
  show ?case
    unfolding e Cons.IH disconnect_registry by (simp add: conj_commute)
qed

text \<open>
  C8. Start in any state whose registry has no record of room \<open>r\<close>. After the join
  requests \<open>js\<close> for \<open>r\<close>, all admitted, the room has \<open>length js\<close> records. After
  disconnects, in any order, of a list of sockets that contains every joiner, the registry
  has no record of \<open>r\<close>, and running the disconnect handler once more for any of those
  sockets returns the state unchanged with no emission.
\<close>

theorem join_leave_no_leak:
  assumes empty: "getUsersInRoom (userSocketMap s) r = []"
    and ok: "all_admitted s r js"
    and all: "fst ` set js \<subseteq> set ds"
  shows "length (getUsersInRoom (userSocketMap (run s (join_events r js))) r) = length js
         \<and> getUsersInRoom
              (userSocketMap (run s (join_events r js @ disconnect_events ds))) r = []
         \<and> (\<forall>sid \<in> set ds.
              on_disconnecting (run s (join_events r js @ disconnect_events ds)) sid =
                (run s (join_events r js @ disconnect_events ds), []))"
proof (intro conjI ballI)
  let ?new = "map (\<lambda>(sid, n). newUser sid r n) js"
  let ?end = "run s (join_events r js @ disconnect_events ds)"
  have joined: "userSocketMap (run s (join_events r js)) = userSocketMap s @ ?new"
    using ok by (rule joins_registry)
  have here: "getUsersInRoom ?new r = ?new"
    by (induction js) (auto simp: getUsersInRoom_def newUser_def)
  show "length (getUsersInRoom (userSocketMap (run s (join_events r js))) r) = length js"
    unfolding joined getUsersInRoom_append empty here by simp
  have final: "userSocketMap ?end =
                 filter (\<lambda>u. socketId u \<notin> set ds) (userSocketMap s @ ?new)"
    unfolding run_append disconnects_registry joined ..
  have gone: "filter (\<lambda>u. socketId u \<notin> set ds) ?new = []"
    using all by (induction js) (auto simp: newUser_def)
  have "getUsersInRoom (userSocketMap ?end) r =
          filter (\<lambda>u. socketId u \<notin> set ds) (getUsersInRoom (userSocketMap s) r)"
    unfolding final by (simp add: getUsersInRoom_def gone conj_commute)
  then show "getUsersInRoom (userSocketMap ?end) r = []"
    unfolding empty by simp
  show "on_disconnecting ?end sid = (?end, [])" if "sid \<in> set ds" for sid
  proof -
    have "sid \<notin> socketId ` set (userSocketMap ?end)"
      unfolding final using that by auto
    then have "getUserBySocketId (userSocketMap ?end) sid = None"
      by (simp add: getUserBySocketId_def find_socket_None)
    then show ?thesis
      by (simp add: on_disconnecting_def)
  qed
qed

text \<open>
  The statement for A and B joining R and leaving in the opposite order.
\<close>

theorem join_leave_no_leak_witness:
  "getUsersInRoom (userSocketMap (run init trace_conn)) ''R'' = []
   \<and> all_admitted (run init trace_conn) ''R'' [(''A'', ''a''), (''B'', ''b'')]
   \<and> length (getUsersInRoom (userSocketMap
        (run (run init trace_conn) (join_events ''R'' [(''A'', ''a''), (''B'', ''b'')]))) ''R'') = 2
   \<and> getUsersInRoom (userSocketMap
        (run (run init trace_conn)
           (join_events ''R'' [(''A'', ''a''), (''B'', ''b'')] @ disconnect_events [''B'', ''A'']))) ''R''
       = []"
proof -
  have empty: "getUsersInRoom (userSocketMap (run init trace_conn)) ''R'' = []"
    by (simp add: trace_conn_def eval_defs)
  have ok: "all_admitted (run init trace_conn) ''R'' [(''A'', ''a''), (''B'', ''b'')]"
    by (simp add: trace_conn_def eval_defs)
  have all: "fst ` set [(''A'', ''a''), (''B'', ''b'')] \<subseteq> set [''B'', ''A'']"
    by simp
  from join_leave_no_leak [OF empty ok all] empty ok show ?thesis
    by simp
qed

section \<open>Status updates\<close>



section \<open>No echo to the sender\<close>

text \<open>
  Every emission a handler makes for an event from a connected socket \<open>sid\<close> is either a
  broadcast that excludes \<open>sid\<close>, or is addressed to \<open>sid\<close> itself; the latter are the
  two replies to a join request and the emission of the \<open>SYNC_FILE_STRUCTURE\<close> handler.
\<close>

lemma emission_addressing:
  assumes "e \<in> set (snd (handle s sid m))" and live: "connected s sid"
  shows "(\<exists>r. dest e = BroadcastTo sid r \<and> sid \<notin> recipients e)
         \<or> (dest e = To sid
             \<and> (event e = USERNAME_EXISTS
                 \<or> (\<exists>u us. event e = JOIN_ACCEPTED u us)
                 \<or> (\<exists>f ofs af. event e = SYNC_FILE_STRUCTURE f ofs af)))"
proof (cases "is_join m")
  case True
  then obtain r n where m: "m = In_JOIN_REQUEST r n"
    by (cases m) (simp_all add: is_join_def)
  have own: "sid \<in> rooms s sid"
    using live by (simp add: connected_def)
  show ?thesis
  proof (cases "isUsernameExist (userSocketMap s) r n")
    case True
    with assms show ?thesis
      unfolding m by (simp add: join_rejected)
  next
    case False
    with assms have "e = emit (socket_join (rooms s) sid r) (BroadcastTo sid r)
                           (USER_JOINED (newUser sid r n))
        \<or> e = emit (socket_join (rooms s) sid r) (To sid)
                 (JOIN_ACCEPTED (newUser sid r n)
                    (getUsersInRoom (userSocketMap s @ [newUser sid r n]) r))"
      unfolding m by (simp add: on_JOIN_REQUEST_def Let_def)
    then show ?thesis
    proof
      assume "e = emit (socket_join (rooms s) sid r) (BroadcastTo sid r)
                    (USER_JOINED (newUser sid r n))"
      then show ?thesis using own by (simp add: emit_def socket_join_def)
    next
      assume "e = emit (socket_join (rooms s) sid r) (To sid)
                 (JOIN_ACCEPTED (newUser sid r n)
                    (getUsersInRoom (userSocketMap s @ [newUser sid r n]) r))"
      then show ?thesis by (simp add: emit_def)
    qed
  qed
next
  case False
  have own: "sid \<in> rooms s sid"
    using live by (simp add: connected_def)
  from False assms(1) own show ?thesis
    by (cases m)
       (simp_all add: is_join_def on_SIGNAL_ICE_CANDIDATE_def on_SIGNAL_OFFER_def
          on_SIGNAL_ANSWER_def on_SYNC_FILE_STRUCTURE_def on_DIRECTORY_CREATED_def
          on_DIRECTORY_UPDATED_def on_DIRECTORY_RENAMED_def on_DIRECTORY_DELETED_def
          on_FILE_CREATED_def on_FILE_UPDATED_def on_FILE_RENAMED_def on_FILE_DELETED_def
          on_SEND_MESSAGE_def on_REQUEST_DRAWING_def on_SYNC_DRAWING_def on_USER_OFFLINE_def
          on_USER_ONLINE_def on_TYPING_START_def on_TYPING_PAUSE_def broadcast_to_own_room_def
          Let_def emit_def split: option.splits if_splits)
qed

text \<open>
  C7. The \<open>SYNC_FILE_STRUCTURE\<close> handler sends the event it received, with the payload
  it received, to \<open>io.to(socket.id)\<close>: in the session \<open>trace_ab\<close> a file structure
  sent by C comes back to C and reaches no other socket.
\<close>

theorem sync_file_structure_echo:
  "connected (run init trace_ab) ''C''
   \<and> snd (handle (run init trace_ab) ''C'' (In_SYNC_FILE_STRUCTURE ''tree'' ''open'' ''active''))
       = [\<lparr>dest = To ''C'', recipients = {''C''},
            event = SYNC_FILE_STRUCTURE ''tree'' ''open'' ''active''\<rparr>]
   \<and> ''C'' \<in> recipients
        (hd (snd (handle (run init trace_ab) ''C''
                    (In_SYNC_FILE_STRUCTURE ''tree'' ''open'' ''active''))))"
  by (simp add: trace_ab_def on_SYNC_FILE_STRUCTURE_def eval_defs)

end
